theory Spec2Isabelle
  imports Complex_Main
begin

section \<open>Command-line arguments\<close>

text \<open>
  The fields of the parsed \<^verbatim>\<open>args\<close> that the epoch loop, the checkpoints and the early
  stopper read. The remaining arguments (seed, learning rate, batch size and the like) only
  parameterise the model, the optimizer and the data loaders, which are collaborators here.
  Progress lines printed under \<^verbatim>\<open>--verbose\<close> do not influence control flow and are left
  out; the line \<^verbatim>\<open>Stop at epoch\<close> is kept.
\<close>

record args =
  dataset :: string
  num_epochs :: int
  resume :: "string option"
  save_folder :: string
  patience :: int
  min_delta :: real
  threshold :: real

section \<open>The early stopper of \<^verbatim>\<open>train.py\<close>\<close>

text \<open>
  \<^verbatim>\<open>EarlyStopper\<close> keeps the best validation mAP seen so far, which starts at
  \<^verbatim>\<open>-float('inf')\<close>. The validation mAP and \<^verbatim>\<open>min_delta\<close> are Python floats, that is
  IEEE binary64 numbers. A finite float is read as the real number it denotes, so the
  comparisons of the source are the comparisons of reals; NaN is outside the model. The
  one arithmetic operation of the class, the subtraction in line 49, is not exact: its
  result is the real difference rounded to the nearest double, ties to even, and it can
  overflow to an infinity.
\<close>

datatype xreal = NegInf | Fin real | PosInf

text \<open>\<^verbatim>\<open>validation_mAP > self.max_validation_mAP\<close>\<close>

fun gt_x :: "real \<Rightarrow> xreal \<Rightarrow> bool" where
  "gt_x s NegInf = True"
| "gt_x s (Fin m) = (m < s)"
| "gt_x s PosInf = False"

text \<open>\<^verbatim>\<open>validation_mAP < x\<close>, for an \<^verbatim>\<open>x\<close> that may be infinite\<close>

fun lt_x :: "real \<Rightarrow> xreal \<Rightarrow> bool" where
  "lt_x s NegInf = False"
| "lt_x s (Fin m) = (s < m)"
| "lt_x s PosInf = True"

text \<open>\<open>x \<le> s\<close>, for an \<open>x\<close> that may be infinite\<close>

fun le_x :: "xreal \<Rightarrow> real \<Rightarrow> bool" where
  "le_x NegInf s = True"
| "le_x (Fin m) s = (m \<le> s)"
| "le_x PosInf s = False"

text \<open>
  Rounding to binary64. An integer is rounded to from a real by taking the nearer of
  its two neighbours and the even one at a tie.
\<close>

definition round_half_even :: "real \<Rightarrow> int" where
  "round_half_even r =
     (let f = \<lfloor>r\<rfloor>
      in if r - of_int f < 1 / 2 then f
         else if 1 / 2 < r - of_int f then f + 1
         else if even f then f else f + 1)"

text \<open>
  The exponent that fixes the spacing of the doubles around \<open>a\<close>: the \<open>e\<close> with
  \<open>2\<^sup>e \<le> a < 2\<^sup>e\<^sup>+\<^sup>1\<close>, searched upwards from the exponent -1022 of the subnormal
  numbers, which all share one spacing, and through the 2046 exponents above it.
\<close>

fun find_exp :: "real \<Rightarrow> int \<Rightarrow> nat \<Rightarrow> int" where
  "find_exp a e 0 = e"
| "find_exp a e (Suc n) = (if a < 2 powi (e + 1) then e else find_exp a (e + 1) n)"

definition binade :: "real \<Rightarrow> int" where
  "binade x = find_exp \<bar>x\<bar> (- 1022) 2046"

text \<open>
  A double has 53 significant bits, so around \<open>x\<close> the doubles are the multiples of
  \<open>2\<close> to the power \<open>binade x - 52\<close>. A result of magnitude \<open>2\<^sup>1\<^sup>0\<^sup>2\<^sup>4\<close> or more is an
  infinity.
\<close>

definition round_double :: "real \<Rightarrow> xreal" where
  "round_double x =
     (let q = 2 powi (binade x - 52);
          y = of_int (round_half_even (x / q)) * q
      in if 2 ^ 1024 \<le> y then PosInf
         else if y \<le> - (2 ^ 1024) then NegInf
         else Fin y)"

text \<open>The reals that are doubles.\<close>

definition is_double :: "real \<Rightarrow> bool" where
  "is_double x = (round_double x = Fin x)"

text \<open>\<^verbatim>\<open>self.max_validation_mAP - self.min_delta\<close>, as floats subtract\<close>

fun minus_x :: "xreal \<Rightarrow> real \<Rightarrow> xreal" where
  "minus_x NegInf d = NegInf"
| "minus_x (Fin m) d = round_double (m - d)"
| "minus_x PosInf d = PosInf"

record EarlyStopper =
  patience :: int
  min_delta :: real
  counter :: int
  max_validation_mAP :: xreal
  threshold :: real

text \<open>\<^verbatim>\<open>EarlyStopper.__init__\<close>\<close>

definition EarlyStopper_init :: "int \<Rightarrow> real \<Rightarrow> real \<Rightarrow> EarlyStopper" where
  "EarlyStopper_init p d t =
     \<lparr>patience = p, min_delta = d, counter = 0, max_validation_mAP = NegInf, threshold = t\<rparr>"

text \<open>
  \<^verbatim>\<open>EarlyStopper.early_stop\<close>: the returned pair is
  \<^verbatim>\<open>(is_early_stopping, is_save_ckpt)\<close>, followed by the object after the call. The third
  test increments the counter before it compares it with the patience, and falls through
  to the last \<^verbatim>\<open>return False, False\<close> when the counter is within the patience.
\<close>

definition early_stop :: "EarlyStopper \<Rightarrow> real \<Rightarrow> (bool \<times> bool) \<times> EarlyStopper" where
  "early_stop self validation_mAP =
     (if validation_mAP \<ge> threshold self then ((True, True), self)
      else if gt_x validation_mAP (max_validation_mAP self) then
        ((False, True), self\<lparr>max_validation_mAP := Fin validation_mAP, counter := 0\<rparr>)
      else if lt_x validation_mAP (minus_x (max_validation_mAP self) (min_delta self)) then
        (let self' = self\<lparr>counter := counter self + 1\<rparr>
         in if counter self' > patience self' then ((True, False), self')
            else ((False, False), self'))
      else ((False, False), self))"

text \<open>
  Feeding a sequence of scores to one stopper, as successive calls of
  \<^verbatim>\<open>early_stopper.early_stop\<close> do: the decisions in call order and the object after the
  last call.
\<close>

fun early_stop_seq :: "EarlyStopper \<Rightarrow> real list \<Rightarrow> (bool \<times> bool) list \<times> EarlyStopper" where
  "early_stop_seq self [] = ([], self)"
| "early_stop_seq self (s # ss) =
     (let (r, self') = early_stop self s;
          (rs, self'') = early_stop_seq self' ss
      in (r # rs, self''))"

text \<open>
  The maximum of a starting value, possibly minus infinity, and a finite set of scores.
\<close>

definition best_of :: "xreal \<Rightarrow> real set \<Rightarrow> xreal" where
  "best_of b A = (case b of
       NegInf \<Rightarrow> (if A = {} then NegInf else Fin (Max A))
     | Fin m \<Rightarrow> Fin (Max (insert m A))
     | PosInf \<Rightarrow> PosInf)"

section \<open>Checkpoints and the file system\<close>

text \<open>
  The dictionary \<^verbatim>\<open>model_config\<close> that is handed to \<^verbatim>\<open>torch.save\<close>. The three state
  dictionaries are opaque values of a type \<open>'b\<close>.
\<close>

record 'b checkpoint =
  epoch :: int
  loss :: real
  model_state_dict :: 'b
  opt_state_dict :: 'b
  sched_state_dict :: 'b

text \<open>
  A path holds a complete serialized checkpoint or the truncated remains of an interrupted
  write. Directories are not part of this map: whether the save folder exists at start-up
  and whether it can be created is decided by the environment.
\<close>

datatype 'b file_content = Valid "'b checkpoint" | Partial

type_synonym 'b filesystem = "string \<rightharpoonup> 'b file_content"

datatype failure = MkdirFailed | LoadFailed | SaveFailed

text \<open>
  \<^verbatim>\<open>torch.save(obj, path)\<close> is a library call that opens \<^verbatim>\<open>path\<close> itself for writing,
  which truncates it, and streams the serialized object into it. It can complete, fail
  before the file is touched (the open is refused), or fail after the truncation (the disk
  fills up, the process is killed). Which of the three happens is decided by the
  environment.
\<close>

datatype write_result = Completes | FailsOnOpen | FailsMidWrite

text \<open>\<^verbatim>\<open>os.path.join\<close> of two components\<close>

definition os_path_join :: "string \<Rightarrow> string \<Rightarrow> string" where
  "os_path_join a b =
     (if b \<noteq> [] \<and> hd b = CHR ''/'' then b
      else if a = [] \<or> last a = CHR ''/'' then a @ b
      else a @ ''/'' @ b)"

text \<open>\<^verbatim>\<open>os.path.join(args.save_folder, 'last-vigat-{}.pt'.format(args.dataset))\<close>\<close>

definition last_path :: "args \<Rightarrow> string" where
  "last_path a = os_path_join (save_folder a) (''last-vigat-'' @ dataset a @ ''.pt'')"

text \<open>\<^verbatim>\<open>os.path.join(args.save_folder, 'best-vigat-{}.pt'.format(args.dataset))\<close>\<close>

definition best_path :: "args \<Rightarrow> string" where
  "best_path a = os_path_join (save_folder a) (''best-vigat-'' @ dataset a @ ''.pt'')"

text \<open>\<^verbatim>\<open>torch.load(path)\<close>: only a complete checkpoint deserializes.\<close>

definition torch_load :: "'b filesystem \<Rightarrow> string \<Rightarrow> failure + 'b checkpoint" where
  "torch_load fs p = (case fs p of Some (Valid c) \<Rightarrow> Inr c | _ \<Rightarrow> Inl LoadFailed)"

section \<open>Collaborators and the state of a run\<close>

text \<open>
  The model, the optimizer, the scheduler, the data loaders and the metric are outside
  \<^verbatim>\<open>train.py\<close>. What the epoch loop needs of them is taken as a parameter: the state
  dictionaries right after construction; the effect of one training pass on the three
  state dictionaries together with the mean loss it returns, which may depend on the
  module's \<^verbatim>\<open>training\<close> flag; the validation mAP of given model parameters; and how each
  \<^verbatim>\<open>torch.save\<close> ends, by target path and epoch count. Training and validation passes are
  taken to return, and so is the construction of the datasets, the loaders and the model.
  The operating system is a collaborator too: \<^verbatim>\<open>os.path.exists\<close> of a path, and whether
  \<^verbatim>\<open>os.mkdir\<close> of a path succeeds (it raises when the parent directory is missing, when the
  path is empty, or when it may not be written).
\<close>

record 'b collaborators =
  fresh :: "'b \<times> 'b \<times> 'b"
  train_fn :: "bool \<Rightarrow> 'b \<times> 'b \<times> 'b \<Rightarrow> ('b \<times> 'b \<times> 'b) \<times> real"
  validate_fn :: "'b \<Rightarrow> real"
  save_result :: "string \<Rightarrow> int \<Rightarrow> write_result"
  path_exists :: "string \<Rightarrow> bool"
  mkdir_ok :: "string \<Rightarrow> bool"

text \<open>
  What a run does that can be observed from outside, in order: the creation of the save
  folder, a training pass (with the
  epoch index and the module's \<^verbatim>\<open>training\<close> flag on entry), a validation pass, a call of
  \<^verbatim>\<open>early_stop\<close> with its score, a completed or failed \<^verbatim>\<open>torch.save\<close>, and the line
  \<^verbatim>\<open>Stop at epoch\<close>.
\<close>

datatype 'b event =
    MakeDir string
  | TrainPass int bool
  | ValidatePass int
  | EarlyStopCall real
  | TorchSave string "'b checkpoint"
  | TorchSaveFailed string
  | PrintStop int

text \<open>
  The mutable objects of \<^verbatim>\<open>main\<close>: the module with its \<^verbatim>\<open>training\<close> flag (set by
  \<^verbatim>\<open>model.train()\<close>, cleared by \<^verbatim>\<open>model.eval()\<close>), the optimizer, the scheduler, the early
  stopper, the files, and the events so far.
\<close>

record 'b world =
  training :: bool
  model_state :: 'b
  opt_state :: 'b
  sched_state :: 'b
  early_stopper :: EarlyStopper
  files :: "'b filesystem"
  trace :: "'b event list"

text \<open>
  \<^verbatim>\<open>train(model, loader, crit, opt, sched, device)\<close>: updates the parameters, the optimizer
  and the scheduler and returns the mean loss. It never touches the \<^verbatim>\<open>training\<close> flag.
\<close>

definition train :: "'b collaborators \<Rightarrow> 'b world \<Rightarrow> 'b world \<times> real" where
  "train env w =
     (let ((m, opt, sched), epoch_loss) =
            train_fn env (training w) (model_state w, opt_state w, sched_state w)
      in (w\<lparr>model_state := m, opt_state := opt, sched_state := sched\<rparr>, epoch_loss))"

text \<open>
  \<^verbatim>\<open>validate(model, dataset, loader, device)\<close>: calls \<^verbatim>\<open>model.eval()\<close>, scores the
  validation set and returns the macro mAP. The flag stays cleared on return.
\<close>

definition validate :: "'b collaborators \<Rightarrow> 'b world \<Rightarrow> 'b world \<times> real" where
  "validate env w =
     (let w' = w\<lparr>training := False\<rparr>;
          map_macro = validate_fn env (model_state w')
      in (w', map_macro))"

text \<open>
  \<^verbatim>\<open>torch.save(model_config, path)\<close> inside the run: \<open>None\<close> when it returns, the raised
  failure otherwise.
\<close>

definition torch_save ::
  "'b collaborators \<Rightarrow> string \<Rightarrow> 'b checkpoint \<Rightarrow> 'b world \<Rightarrow> failure option \<times> 'b world" where
  "torch_save env path obj w =
     (case save_result env path (epoch obj) of
        Completes \<Rightarrow>
          (None, w\<lparr>files := (files w)(path \<mapsto> Valid obj),
                     trace := trace w @ [TorchSave path obj]\<rparr>)
      | FailsOnOpen \<Rightarrow>
          (Some SaveFailed, w\<lparr>trace := trace w @ [TorchSaveFailed path]\<rparr>)
      | FailsMidWrite \<Rightarrow>
          (Some SaveFailed, w\<lparr>files := (files w)(path \<mapsto> Partial),
                                trace := trace w @ [TorchSaveFailed path]\<rparr>))"

section \<open>The epoch loop and \<^verbatim>\<open>main\<close>\<close>

text \<open>How one execution of the loop body ends.\<close>

datatype flow = Continue | Break | Raise failure

text \<open>
  The body of \<^verbatim>\<open>for epoch in range(start_epoch, args.num_epochs)\<close>, statement by
  statement.
\<close>

definition loop_body :: "'b collaborators \<Rightarrow> args \<Rightarrow> int \<Rightarrow> 'b world \<Rightarrow> flow \<times> 'b world" where
  "loop_body env a ep w =
     (let epoch_cnt = ep + 1;
          (w1, train_loss) = train env (w\<lparr>trace := trace w @ [TrainPass ep (training w)]\<rparr>);
          (w2, val_map) = validate env (w1\<lparr>trace := trace w1 @ [ValidatePass ep]\<rparr>);
          ((is_early_stopping, is_save_ckpt), stopper') = early_stop (early_stopper w2) val_map;
          w3 = w2\<lparr>early_stopper := stopper', trace := trace w2 @ [EarlyStopCall val_map]\<rparr>;
          model_config = \<lparr>epoch = epoch_cnt, loss = train_loss,
                          model_state_dict = model_state w3,
                          opt_state_dict = opt_state w3,
                          sched_state_dict = sched_state w3\<rparr>
      in case torch_save env (last_path a) model_config w3 of
           (Some f, w4) \<Rightarrow> (Raise f, w4)
         | (None, w4) \<Rightarrow>
             (case (if is_save_ckpt then torch_save env (best_path a) model_config w4
                    else (None, w4)) of
                (Some f, w5) \<Rightarrow> (Raise f, w5)
              | (None, w5) \<Rightarrow>
                  if is_early_stopping
                  then (Break, w5\<lparr>trace := trace w5 @ [PrintStop epoch_cnt]\<rparr>)
                  else (Continue, w5)))"

text \<open>How a run ends.\<close>

datatype outcome = SysExit | StoppedEarly int | StoppedBudget | Fatal failure

text \<open>
  The loop over \<^verbatim>\<open>range(epoch, args.num_epochs)\<close>, entered at index \<open>ep\<close>. The \<^verbatim>\<open>break\<close>
  ends it with the epoch count that was printed, an exception ends the run.
\<close>

function epoch_loop ::
  "'b collaborators \<Rightarrow> args \<Rightarrow> int \<Rightarrow> 'b world \<Rightarrow> outcome \<times> 'b world" where
  "epoch_loop env a ep w =
     (if ep < num_epochs a then
        (case loop_body env a ep w of
           (Continue, w') \<Rightarrow> epoch_loop env a (ep + 1) w'
         | (Break, w') \<Rightarrow> (StoppedEarly (ep + 1), w')
         | (Raise f, w') \<Rightarrow> (Fatal f, w'))
      else (StoppedBudget, w))"
  by pat_completeness auto
termination
  by (relation "measure (\<lambda>(env, a, ep, w). nat (num_epochs a - ep))") auto

declare epoch_loop.simps [simp del]

text \<open>\<^verbatim>\<open>if args.resume:\<close> holds for a path that is given and not the empty string.\<close>

definition resuming :: "args \<Rightarrow> bool" where
  "resuming a = (case resume a of None \<Rightarrow> False | Some p \<Rightarrow> p \<noteq> [])"

text \<open>\<^verbatim>\<open>os.mkdir(path)\<close>: the directory is made, or the call raises.\<close>

definition os_mkdir :: "'b collaborators \<Rightarrow> string \<Rightarrow> failure + 'b event list" where
  "os_mkdir env path = (if mkdir_ok env path then Inr [MakeDir path] else Inl MkdirFailed)"

text \<open>
  \<^verbatim>\<open>main\<close>, started on a file system: how the run ends, the files it leaves and the events
  in order. The save folder is made first if it does not exist, and a failure to make it
  ends the run. A dataset other than \<^verbatim>\<open>cufed\<close> exits before anything is built. The module is
  constructed in training mode; on resume the epoch and the three state dictionaries come
  from the checkpoint, and a start without \<^verbatim>\<open>--resume\<close> is written as the data with epoch
  0 and the newly constructed state dictionaries (its loss is never read). The early stopper
  is always built anew, and \<^verbatim>\<open>model.train()\<close> is called once, before the loop.
\<close>

definition main ::
  "'b collaborators \<Rightarrow> args \<Rightarrow> 'b filesystem \<Rightarrow> outcome \<times> 'b filesystem \<times> 'b event list" where
  "main env a fs =
     (case (if \<not> path_exists env (save_folder a) then os_mkdir env (save_folder a)
            else Inr []) of
        Inl f \<Rightarrow> (Fatal f, fs, [])
      | Inr made \<Rightarrow>
          if dataset a \<noteq> ''cufed'' then (SysExit, fs, made)
          else
            case (if resuming a then torch_load fs (the (resume a))
                  else Inr \<lparr>epoch = 0, loss = 0,
                            model_state_dict = fst (fresh env),
                            opt_state_dict = fst (snd (fresh env)),
                            sched_state_dict = snd (snd (fresh env))\<rparr>) of
              Inl f \<Rightarrow> (Fatal f, fs, made)
            | Inr data \<Rightarrow>
                (let start_epoch = epoch data;
                     early_stopper = EarlyStopper_init (args.patience a) (args.min_delta a)
                                       (args.threshold a);
                     w = \<lparr>training = True,
                          model_state = model_state_dict data,
                          opt_state = opt_state_dict data,
                          sched_state = sched_state_dict data,
                          early_stopper = early_stopper,
                          files = fs,
                          trace = made\<rparr>;
                     (out, w') = epoch_loop env a start_epoch (w\<lparr>training := True\<rparr>)
                 in (out, files w', trace w')))"

text \<open>Reading a trace: the epoch indices trained, and the epoch fields written to a path.\<close>

fun trained_epochs :: "'b event list \<Rightarrow> int list" where
  "trained_epochs [] = []"
| "trained_epochs (TrainPass e m # evs) = e # trained_epochs evs"
| "trained_epochs (_ # evs) = trained_epochs evs"

fun saved_epochs :: "string \<Rightarrow> 'b event list \<Rightarrow> int list" where
  "saved_epochs p [] = []"
| "saved_epochs p (TorchSave q c # evs) =
     (if q = p then epoch c # saved_epochs p evs else saved_epochs p evs)"
| "saved_epochs p (_ # evs) = saved_epochs p evs"

text \<open>
  A scripted environment for concrete runs: the state dictionaries count the training
  passes, the \<open>k\<close>-th pass is followed by the \<open>k\<close>-th score of the script (0 beyond its end),
  every pass reports loss 1, and the save folder exists.
\<close>

definition scripted :: "real list \<Rightarrow> (string \<Rightarrow> int \<Rightarrow> write_result) \<Rightarrow> nat collaborators" where
  "scripted scores wr =
     \<lparr>fresh = (0, 0, 0),
      train_fn = (\<lambda>flag (m, opt, sched). ((m + 1, opt + 1, sched + 1), 1)),
      validate_fn = (\<lambda>m. case drop (m - 1) scores of [] \<Rightarrow> 0 | s # _ \<Rightarrow> s),
      save_result = wr,
      path_exists = (\<lambda>p. True),
      mkdir_ok = (\<lambda>p. True)\<rparr>"

section \<open>Names for the values of one iteration\<close>

text \<open>
  The values that one execution of the loop body computes from the world it starts in:
  what the training pass returns, the validation mAP measured after it, the decision of
  \<^verbatim>\<open>early_stop\<close> on that score, the dictionary \<^verbatim>\<open>model_config\<close>, and the world right
  after the call of \<^verbatim>\<open>early_stop\<close>, before the first \<^verbatim>\<open>torch.save\<close>.
\<close>

definition trained :: "'b collaborators \<Rightarrow> 'b world \<Rightarrow> ('b \<times> 'b \<times> 'b) \<times> real" where
  "trained env w = train_fn env (training w) (model_state w, opt_state w, sched_state w)"

definition val_score :: "'b collaborators \<Rightarrow> 'b world \<Rightarrow> real" where
  "val_score env w = validate_fn env (fst (fst (trained env w)))"

definition decision :: "'b collaborators \<Rightarrow> 'b world \<Rightarrow> bool \<times> bool" where
  "decision env w = fst (early_stop (early_stopper w) (val_score env w))"

definition config_of :: "'b collaborators \<Rightarrow> int \<Rightarrow> 'b world \<Rightarrow> 'b checkpoint" where
  "config_of env ep w =
     \<lparr>epoch = ep + 1, loss = snd (trained env w),
      model_state_dict = fst (fst (trained env w)),
      opt_state_dict = fst (snd (fst (trained env w))),
      sched_state_dict = snd (snd (fst (trained env w)))\<rparr>"

definition evaluated :: "'b collaborators \<Rightarrow> int \<Rightarrow> 'b world \<Rightarrow> 'b world" where
  "evaluated env ep w =
     w\<lparr>model_state := fst (fst (trained env w)),
       opt_state := fst (snd (fst (trained env w))),
       sched_state := snd (snd (fst (trained env w))),
       training := False,
       early_stopper := snd (early_stop (early_stopper w) (val_score env w)),
       trace := trace w @ [TrainPass ep (training w), ValidatePass ep,
                           EarlyStopCall (val_score env w)]\<rparr>"

text \<open>
  The line printed and the way the body ends once both saves are done.
\<close>

definition stop_line :: "'b collaborators \<Rightarrow> int \<Rightarrow> 'b world \<Rightarrow> 'b event list" where
  "stop_line env ep w = (if fst (decision env w) then [PrintStop (ep + 1)] else [])"

definition stop_flow :: "'b collaborators \<Rightarrow> 'b world \<Rightarrow> flow" where
  "stop_flow env w = (if fst (decision env w) then Break else Continue)"

text \<open>
  The events of a start-up that succeeds, the world in which \<^verbatim>\<open>main\<close> then enters the
  loop (but for these events), from the data it starts with, and the data of a start
  without \<^verbatim>\<open>--resume\<close>.
\<close>

definition startup_trace :: "'b collaborators \<Rightarrow> args \<Rightarrow> 'b event list" where
  "startup_trace env a =
     (if path_exists env (save_folder a) then [] else [MakeDir (save_folder a)])"


definition loop_entry :: "args \<Rightarrow> 'b filesystem \<Rightarrow> 'b checkpoint \<Rightarrow> 'b world" where
  "loop_entry a fs data =
     \<lparr>training = True,
      model_state = model_state_dict data,
      opt_state = opt_state_dict data,
      sched_state = sched_state_dict data,
      early_stopper = EarlyStopper_init (args.patience a) (args.min_delta a) (args.threshold a),
      files = fs,
      trace = []\<rparr>"

definition fresh_data :: "'b collaborators \<Rightarrow> 'b checkpoint" where
  "fresh_data env =
     \<lparr>epoch = 0, loss = 0,
      model_state_dict = fst (fresh env),
      opt_state_dict = fst (snd (fresh env)),
      sched_state_dict = snd (snd (fresh env))\<rparr>"

section \<open>Concrete runs\<close>

text \<open>
  The argument defaults of the parser (dataset \<^verbatim>\<open>cufed\<close>, save folder \<^verbatim>\<open>weights\<close>,
  \<^verbatim>\<open>min_delta\<close> 0.5, threshold 95) with a given epoch budget, patience and resume path.
\<close>

definition default_args :: "int \<Rightarrow> int \<Rightarrow> string option \<Rightarrow> args" where
  "default_args n p r =
     \<lparr>dataset = ''cufed'', num_epochs = n, resume = r, save_folder = ''weights'',
      args.patience = p, args.min_delta = 1 / 2, args.threshold = 95\<rparr>"

text \<open>
  Environments in which every \<^verbatim>\<open>torch.save\<close> completes, or every one is interrupted
  after the target was opened.
\<close>

definition all_complete :: "string \<Rightarrow> int \<Rightarrow> write_result" where
  "all_complete p e = Completes"

definition mid_write_failure :: "string \<Rightarrow> int \<Rightarrow> write_result" where
  "mid_write_failure p e = FailsMidWrite"

text \<open>
  The checkpoint that a scripted run writes at epoch count \<open>k\<close>.
\<close>

definition saved_at :: "int \<Rightarrow> nat checkpoint" where
  "saved_at k = \<lparr>epoch = k, loss = 1, model_state_dict = nat k, opt_state_dict = nat k,
                 sched_state_dict = nat k\<rparr>"

section \<open>Properties of the early stopper\<close>

subsection \<open>Rounding to a double\<close>

lemma find_exp_range: "e \<le> find_exp a e n \<and> find_exp a e n \<le> e + int n"
  by (induction a e n rule: find_exp.induct) auto

lemma find_exp_upper: "find_exp a e n < e + int n \<Longrightarrow> a < 2 powi (find_exp a e n + 1)"
  by (induction a e n rule: find_exp.induct) (auto split: if_splits)

lemma find_exp_lower: "e < find_exp a e n \<Longrightarrow> 2 powi (find_exp a e n) \<le> a"
proof (induction a e n rule: find_exp.induct)
  case (1 a e)
  then show ?case by simp
next
  case (2 a e n)
  show ?case
  proof (cases "a < 2 powi (e + 1)")
    case True
    with "2.prems" show ?thesis by simp
  next
    case False
    show ?thesis
    proof (cases "e + 1 < find_exp a (e + 1) n")
      case True
      with "2.IH" [OF False] False show ?thesis by simp
    next
      case no: False
      with find_exp_range [of "e + 1" a n] have "find_exp a (e + 1) n = e + 1" by simp
      with False show ?thesis by simp
    qed
  qed
qed

lemma binade_range: "- 1022 \<le> binade x" "binade x \<le> 1024"
  using find_exp_range [of "- 1022" "\<bar>x\<bar>" 2046] by (simp_all add: binade_def)

lemma binade_upper: "binade x < 1024 \<Longrightarrow> \<bar>x\<bar> < 2 powi (binade x + 1)"
  using find_exp_upper [of "\<bar>x\<bar>" "- 1022" 2046] by (simp add: binade_def)

lemma binade_lower: "- 1022 < binade x \<Longrightarrow> 2 powi (binade x) \<le> \<bar>x\<bar>"
  using find_exp_lower [of "- 1022" "\<bar>x\<bar>" 2046] by (simp add: binade_def)

lemma two_powi_mono: "m \<le> n \<Longrightarrow> (2::real) powi m \<le> 2 powi n"
  by (rule power_int_increasing) simp_all

lemma two_powi_less_cancel: "(2::real) powi m < 2 powi n \<Longrightarrow> m < n"
  using two_powi_mono [of n m] by (cases "m < n") auto

lemma binade_eq:
  assumes "2 powi e \<le> \<bar>x\<bar>" and "\<bar>x\<bar> < 2 powi (e + 1)" and "- 1022 \<le> e" and "e \<le> 1023"
  shows "binade x = e"
proof (rule ccontr)
  assume ne: "binade x \<noteq> e"
  show False
  proof (cases "binade x < e")
    case True
    then have "binade x < 1024" using assms(4) by simp
    from binade_upper [OF this] have "\<bar>x\<bar> < 2 powi (binade x + 1)" .
    also have "\<dots> \<le> 2 powi e" using True by (intro two_powi_mono) simp
    finally show False using assms(1) by simp
  next
    case False
    with ne have gt: "e < binade x" by simp
    then have "- 1022 < binade x" using assms(3) by simp
    from binade_lower [OF this] have "2 powi (binade x) \<le> \<bar>x\<bar>" .
    moreover have "2 powi (e + 1) \<le> (2::real) powi (binade x)"
      using gt by (intro two_powi_mono) simp
    ultimately show False using assms(2) by simp
  qed
qed

lemma binade_small:
  assumes "\<bar>x\<bar> < 2 powi (- 1021)"
  shows "binade x = - 1022"
proof (rule ccontr)
  assume "binade x \<noteq> - 1022"
  with binade_range(1) [of x] have gt: "- 1022 < binade x" by simp
  from binade_lower [OF gt] have "2 powi (binade x) \<le> \<bar>x\<bar>" .
  moreover have "2 powi (- 1021) \<le> (2::real) powi (binade x)"
    using gt by (intro two_powi_mono) simp
  ultimately show False using assms by simp
qed

lemma round_half_even_of_int [simp]: "round_half_even (of_int k) = k"
  by (simp add: round_half_even_def)

lemma round_half_even_le:
  assumes "r \<le> of_int N"
  shows "round_half_even r \<le> N"
proof (cases "r = of_int N")
  case True
  then show ?thesis by simp
next
  case False
  with assms have "r < of_int N" by simp
  then have "\<lfloor>r\<rfloor> < N" by (simp add: floor_less_iff)
  then show ?thesis by (simp add: round_half_even_def Let_def)
qed


lemma two_powi_pos [simp]: "0 < (2::real) powi n"
  by (simp add: power_int_def)

lemma two_powi_ratio:
  assumes "m \<le> n"
  shows "(2::real) powi n / 2 powi m = of_int (2 ^ nat (n - m))"
proof -
  have "(2::real) powi n / 2 powi m = 2 powi (n - m)" by (simp add: power_int_diff)
  also have "\<dots> = 2 ^ nat (n - m)" using assms by (simp add: power_int_def)
  finally show ?thesis by simp
qed

text \<open>A multiple of the spacing rounds to itself.\<close>

lemma round_on_grid:
  assumes "x = of_int k * 2 powi p" and "binade x - 52 \<le> p"
  shows "of_int (round_half_even (x / 2 powi (binade x - 52))) * 2 powi (binade x - 52) = x"
proof -
  let ?q = "(2::real) powi (binade x - 52)"
  have "x / ?q = of_int k * (2 powi p / ?q)" by (simp add: assms(1))
  also have "\<dots> = of_int (k * 2 ^ nat (p - (binade x - 52)))"
    by (simp add: two_powi_ratio [OF assms(2)])
  finally have "x / ?q = of_int (k * 2 ^ nat (p - (binade x - 52)))" .
  then have "of_int (round_half_even (x / ?q)) = x / ?q"
    by (simp only: round_half_even_of_int)
  then show ?thesis by simp
qed

lemma round_double_dyadic:
  assumes x: "x = of_int k * 2 powi p" and k: "\<bar>k\<bar> < 2 ^ 53" and p: "- 1074 \<le> p" "p \<le> 971"
  shows "round_double x = Fin x"
proof -
  have kr: "\<bar>of_int k :: real\<bar> < 2 ^ 53"
  proof -
    have "\<bar>of_int k :: real\<bar> = of_int \<bar>k\<bar>" by simp
    also have "\<dots> < of_int (2 ^ 53)" using k by (simp only: of_int_less_iff)
    finally show ?thesis by simp
  qed
  have absx: "\<bar>x\<bar> = \<bar>of_int k\<bar> * 2 powi p"
    by (simp add: x abs_mult)
  have lt: "\<bar>x\<bar> < 2 powi (53 + p)"
  proof -
    have "\<bar>x\<bar> < 2 ^ 53 * 2 powi p"
      unfolding absx using kr by (intro mult_strict_right_mono) simp_all
    also have "\<dots> = 2 powi (53 + p)" by (simp add: power_int_add)
    finally show ?thesis .
  qed
  have grid: "binade x - 52 \<le> p"
  proof (cases "binade x = - 1022")
    case True
    then show ?thesis using p(1) by simp
  next
    case False
    with binade_range(1) [of x] have "- 1022 < binade x" by simp
    from binade_lower [OF this] lt have "(2::real) powi (binade x) < 2 powi (53 + p)" by simp
    from two_powi_less_cancel [OF this] show ?thesis by simp
  qed
  have below: "\<bar>x\<bar> < 2 ^ 1024"
  proof -
    have "(2::real) powi (53 + p) \<le> 2 powi 1024" using p(2) by (intro two_powi_mono) simp
    with lt show ?thesis by simp
  qed
  from below have "\<not> 2 ^ 1024 \<le> x" and "\<not> x \<le> - (2 ^ 1024)"
    by (auto simp: abs_less_iff)
  then show ?thesis
    by (simp only: round_double_def Let_def round_on_grid [OF x grid] if_False)
qed

lemma round_double_of_int: "\<bar>k\<bar> < 2 ^ 53 \<Longrightarrow> round_double (of_int k) = Fin (of_int k)"
  using round_double_dyadic [of "of_int k" k 0] by simp

lemma rd_11: "round_double 11 = Fin 11"
  using round_double_of_int [of 11] by simp


text \<open>Rounding never passes a double from below.\<close>

lemma round_double_le:
  assumes m: "is_double m" and xm: "x \<le> m"
  shows "le_x (round_double x) m"
proof -
  let ?E = "binade x" and ?Em = "binade m"
  let ?q = "(2::real) powi (?E - 52)" and ?qm = "(2::real) powi (?Em - 52)"
  let ?K = "round_half_even (m / ?qm)"
  let ?y = "of_int (round_half_even (x / ?q)) * ?q"
  from m have my: "of_int ?K * ?qm = m" and mb: "m < 2 ^ 1024" "- (2 ^ 1024) < m"
    by (auto simp: is_double_def round_double_def Let_def split: if_splits)
  have "?y \<le> m"
  proof (cases "?E \<le> ?Em")
    case True
    then have le: "?E - 52 \<le> ?Em - 52" by simp
    have "m / ?q = of_int ?K * (?qm / ?q)" using my by (metis times_divide_eq_right)
    also have "\<dots> = of_int (?K * 2 ^ nat (?Em - 52 - (?E - 52)))"
      by (simp add: two_powi_ratio [OF le])
    finally have mq: "m / ?q = of_int (?K * 2 ^ nat (?Em - 52 - (?E - 52)))" .
    have "x / ?q \<le> m / ?q" using xm by (intro divide_right_mono) simp_all
    then have "round_half_even (x / ?q) \<le> ?K * 2 ^ nat (?Em - 52 - (?E - 52))"
      unfolding mq by (rule round_half_even_le)
    then have "(of_int (round_half_even (x / ?q)) :: real)
                 \<le> of_int (?K * 2 ^ nat (?Em - 52 - (?E - 52)))"
      by (simp only: of_int_le_iff)
    then have "?y \<le> (m / ?q) * ?q"
      unfolding mq by (intro mult_right_mono) simp_all
    then show ?thesis by simp
  next
    case False
    then have lt: "?Em < ?E" by simp
    with binade_range(1) [of m] have "- 1022 < ?E" by simp
    from binade_lower [OF this] have xl: "2 powi ?E \<le> \<bar>x\<bar>" .
    from lt binade_range(2) [of x] have "?Em < 1024" by simp
    from binade_upper [OF this] have "\<bar>m\<bar> < 2 powi (?Em + 1)" .
    also have "\<dots> \<le> 2 powi ?E" using lt by (intro two_powi_mono) simp
    finally have ml: "\<bar>m\<bar> < 2 powi ?E" .
    from xl ml xm have xneg: "x \<le> - (2 powi ?E)" by linarith
    have "(2::real) powi ?E / ?q = of_int (2 ^ nat (?E - (?E - 52)))"
      by (intro two_powi_ratio) simp
    then have ratio: "(2::real) powi ?E / ?q = of_int (2 ^ 52)" by simp
    have "x / ?q \<le> - (2 powi ?E) / ?q" using xneg by (intro divide_right_mono) simp_all
    also have "\<dots> = of_int (- (2 ^ 52))" using ratio by simp
    finally have "round_half_even (x / ?q) \<le> - (2 ^ 52)" by (rule round_half_even_le)
    then have "(of_int (round_half_even (x / ?q)) :: real) \<le> of_int (- (2 ^ 52))"
      by (simp only: of_int_le_iff)
    then have "?y \<le> of_int (- (2 ^ 52)) * ?q"
      by (intro mult_right_mono) simp_all
    also have "\<dots> = - (2 powi ?E)" using ratio by (simp add: field_simps)
    finally show ?thesis using ml by linarith
  qed
  then show ?thesis using mb by (simp add: round_double_def Let_def)
qed

text \<open>The doubles nearest 0.8 and 0.3 differ by 0.5 after rounding.\<close>

lemma rd_tie:
  "round_double (7205759403792794 / 2 ^ 53 - 5404319552844595 / 2 ^ 54) = Fin (1 / 2)"
proof -
  have x: "(7205759403792794 / 2 ^ 53 - 5404319552844595 / 2 ^ 54 :: real)
             = 9007199254740993 / 2 ^ 54"
    by simp
  have b: "binade (9007199254740993 / 2 ^ 54) = - 1"
    by (rule binade_eq) (simp_all add: power_int_minus)
  show ?thesis
    unfolding x round_double_def Let_def b
    by (simp add: round_half_even_def power_int_minus)
qed

lemma is_double_of_int: "\<bar>k\<bar> < 2 ^ 53 \<Longrightarrow> is_double (of_int k)"
  by (simp add: is_double_def round_double_of_int)

lemma rd_12: "round_double 12 = Fin 12"
  using round_double_of_int [of 12] by simp

lemma is_double_12: "is_double 12"
  by (simp add: is_double_def rd_12)

lemma not_lt_x: "(\<not> lt_x s x) = le_x x s"
  by (cases x) auto

text \<open>
  The difference of the doubles nearest to 0.8 and 0.3 is rounded to 0.5, so a score of
  0.5 after a best score of 0.8 with \<^verbatim>\<open>min_delta\<close> 0.3 is not counted as a regression, as
  in the program.
\<close>

lemma rounded_difference_is_a_plateau:
  "early_stop \<lparr>patience = 0, min_delta = 5404319552844595 / 2 ^ 54, counter = 0,
               max_validation_mAP = Fin (7205759403792794 / 2 ^ 53), threshold = 95\<rparr> (1 / 2)
     = ((False, False),
        \<lparr>patience = 0, min_delta = 5404319552844595 / 2 ^ 54, counter = 0,
         max_validation_mAP = Fin (7205759403792794 / 2 ^ 53), threshold = 95\<rparr>)"
proof -
  have "minus_x (Fin (7205759403792794 / 2 ^ 53)) (5404319552844595 / 2 ^ 54) = Fin (1 / 2)"
    by (simp only: minus_x.simps rd_tie)
  then show ?thesis
    by (simp add: early_stop_def del: minus_x.simps)
qed

lemma regression_below_best:
  assumes "is_double m" and "0 \<le> d" and "lt_x s (minus_x (Fin m) d)"
  shows "s < m"
proof -
  have "le_x (round_double (m - d)) m"
    using assms(1,2) by (intro round_double_le) simp_all
  with assms(3) show ?thesis by (cases "round_double (m - d)") simp_all
qed

subsection \<open>Decisions\<close>

text \<open>
  C1. A score below the threshold is handled in one of three ways. If it exceeds the best
  score, it becomes the best score, the counter is reset to 0 and the result is
  (stop = False, save = True). Otherwise, if it is below the best score minus
  \<^verbatim>\<open>min_delta\<close>, the counter becomes \<open>c + 1\<close> and the result is (stop, False) with stop
  exactly when \<open>c + 1\<close> exceeds the patience. Otherwise the result is (False, False) and the
  object is unchanged; for a finite best score \<open>m\<close> this last case is exactly
  \<open>m - min_delta \<le> s \<le> m\<close>. Here \<open>m - min_delta\<close> is the difference as the program has
  it, the value of the float subtraction.
\<close>

theorem early_stop_below_threshold:
  assumes "s < threshold es"
  shows "(gt_x s (max_validation_mAP es) \<longrightarrow>
            early_stop es s = ((False, True), es\<lparr>max_validation_mAP := Fin s, counter := 0\<rparr>))
       \<and> (\<not> gt_x s (max_validation_mAP es)
            \<and> lt_x s (minus_x (max_validation_mAP es) (min_delta es)) \<longrightarrow>
            early_stop es s
              = ((counter es + 1 > patience es, False), es\<lparr>counter := counter es + 1\<rparr>))
       \<and> (\<not> gt_x s (max_validation_mAP es)
            \<and> \<not> lt_x s (minus_x (max_validation_mAP es) (min_delta es)) \<longrightarrow>
            early_stop es s = ((False, False), es))
       \<and> (\<forall>m. max_validation_mAP es = Fin m \<longrightarrow>
            (\<not> gt_x s (max_validation_mAP es)
               \<and> \<not> lt_x s (minus_x (max_validation_mAP es) (min_delta es)))
            = (le_x (minus_x (Fin m) (min_delta es)) s \<and> s \<le> m))"
proof -
  have plateau: "\<forall>m. max_validation_mAP es = Fin m \<longrightarrow>
            (\<not> gt_x s (max_validation_mAP es)
               \<and> \<not> lt_x s (minus_x (max_validation_mAP es) (min_delta es)))
            = (le_x (minus_x (Fin m) (min_delta es)) s \<and> s \<le> m)"
    by (auto simp: not_lt_x simp del: minus_x.simps)
  show ?thesis
    using assms plateau
    by (simp add: early_stop_def Let_def del: minus_x.simps)
qed

theorem early_stop_below_threshold_witness:
  "((13::real) < 95
      \<and> early_stop \<lparr>patience = 2, min_delta = 1, counter = 1, max_validation_mAP = Fin 12,
                       threshold = 95\<rparr> 13
        = ((False, True), \<lparr>patience = 2, min_delta = 1, counter = 0,
                            max_validation_mAP = Fin 13, threshold = 95\<rparr>))
   \<and> ((9::real) < 95
      \<and> early_stop \<lparr>patience = 2, min_delta = 1, counter = 2, max_validation_mAP = Fin 12,
                       threshold = 95\<rparr> 9
        = ((True, False), \<lparr>patience = 2, min_delta = 1, counter = 3,
                            max_validation_mAP = Fin 12, threshold = 95\<rparr>))
   \<and> ((11::real) < 95
      \<and> early_stop \<lparr>patience = 2, min_delta = 1, counter = 1, max_validation_mAP = Fin 12,
                       threshold = 95\<rparr> 11
        = ((False, False), \<lparr>patience = 2, min_delta = 1, counter = 1,
                             max_validation_mAP = Fin 12, threshold = 95\<rparr>))"
  using
    early_stop_below_threshold [of 13 "\<lparr>patience = 2, min_delta = 1, counter = 1,
      max_validation_mAP = Fin 12, threshold = 95\<rparr>"]
    early_stop_below_threshold [of 9 "\<lparr>patience = 2, min_delta = 1, counter = 2,
      max_validation_mAP = Fin 12, threshold = 95\<rparr>"]
    early_stop_below_threshold [of 11 "\<lparr>patience = 2, min_delta = 1, counter = 1,
      max_validation_mAP = Fin 12, threshold = 95\<rparr>"]
  by (simp add: rd_11)

text \<open>
  C2, as stated: with patience 2, \<^verbatim>\<open>min_delta\<close> 1.0 and threshold 95, the scores
  10, 12, 11, 9, 8 give the decisions (F,T), (F,T), (F,F), (F,F), (T,F) with the counter at
  1, 2 and 3 after the third, fourth and fifth call. This fails: 11 is not below
  12 - 1.0, so the third call leaves the counter at 0 and the fifth call does not stop.
\<close>

theorem scenario_as_stated_fails:
  "\<not> (fst (early_stop_seq (EarlyStopper_init 2 1 95) [10, 12, 11, 9, 8])
          = [(False, True), (False, True), (False, False), (False, False), (True, False)]
        \<and> counter (snd (early_stop_seq (EarlyStopper_init 2 1 95) [10, 12, 11])) = 1
        \<and> counter (snd (early_stop_seq (EarlyStopper_init 2 1 95) [10, 12, 11, 9])) = 2
        \<and> counter (snd (early_stop_seq (EarlyStopper_init 2 1 95) [10, 12, 11, 9, 8])) = 3)"
  by (simp add: early_stop_def EarlyStopper_init_def Let_def rd_11)

text \<open>
  C2, amended: with the same configuration and scores the decisions are (F,T), (F,T),
  (F,F), (F,F), (F,F), the counter is 0, 1 and 2 after the third, fourth and fifth call,
  no call signals stop, and the best score is 12.
\<close>

theorem scenario_decisions:
  "fst (early_stop_seq (EarlyStopper_init 2 1 95) [10, 12, 11, 9, 8])
     = [(False, True), (False, True), (False, False), (False, False), (False, False)]
   \<and> counter (snd (early_stop_seq (EarlyStopper_init 2 1 95) [10, 12, 11])) = 0
   \<and> counter (snd (early_stop_seq (EarlyStopper_init 2 1 95) [10, 12, 11, 9])) = 1
   \<and> counter (snd (early_stop_seq (EarlyStopper_init 2 1 95) [10, 12, 11, 9, 8])) = 2
   \<and> max_validation_mAP (snd (early_stop_seq (EarlyStopper_init 2 1 95) [10, 12, 11, 9, 8]))
       = Fin 12"
  by (simp add: early_stop_def EarlyStopper_init_def Let_def rd_11)

lemma early_stop_seq_regressions:
  assumes "0 \<le> min_delta es" and "max_validation_mAP es = Fin m" and "is_double m"
    and "\<forall>s \<in> set ss. lt_x s (minus_x (Fin m) (min_delta es)) \<and> s < threshold es"
  shows "early_stop_seq es ss =
     (map (\<lambda>i. (patience es < counter es + int i + 1, False)) [0..<length ss],
      es\<lparr>counter := counter es + int (length ss)\<rparr>)"
  using assms
proof (induction ss arbitrary: es)
  case Nil
  then show ?case by simp
next
  case (Cons s ss)
  let ?es' = "es\<lparr>counter := counter es + 1\<rparr>"
  from Cons.prems have s: "lt_x s (minus_x (Fin m) (min_delta es))" "s < threshold es"
    by auto
  from regression_below_best [OF Cons.prems(3) Cons.prems(1) s(1)] have "s < m" .
  with s Cons.prems(2)
  have step: "early_stop es s = ((patience es < counter es + 1, False), ?es')"
    by (simp add: early_stop_def Let_def del: minus_x.simps)
  have "early_stop_seq ?es' ss =
     (map (\<lambda>i. (patience ?es' < counter ?es' + int i + 1, False)) [0..<length ss],
      ?es'\<lparr>counter := counter ?es' + int (length ss)\<rparr>)"
    using Cons.prems by (intro Cons.IH) (auto simp del: minus_x.simps)
  then show ?case using step
    by (simp add: upt_conv_Cons map_Suc_upt[symmetric] del: upt_Suc add: algebra_simps)
qed

text \<open>
  C3. From a stopper with counter 0, a finite best score \<open>m\<close> (a double, as every score
  is) and \<^verbatim>\<open>min_delta\<close> \<open>d \<ge> 0\<close>, a run of calls whose scores are all below \<open>m - d\<close>, the
  difference as the float subtraction gives it, and below the threshold never saves,
  and its call number \<open>i + 1\<close> signals stop exactly when \<open>i + 1\<close> exceeds the patience
  \<open>p \<ge> 0\<close>: the first \<open>p\<close> calls return stop = False and call \<open>p + 1\<close> is the first to
  return stop = True.
\<close>

theorem patience_budget:
  assumes "0 \<le> patience es" and "0 \<le> min_delta es" and "counter es = 0"
    and "max_validation_mAP es = Fin m" and "is_double m"
    and "\<forall>s \<in> set ss. lt_x s (minus_x (Fin m) (min_delta es)) \<and> s < threshold es"
  shows "fst (early_stop_seq es ss)
           = map (\<lambda>i. (patience es < int i + 1, False)) [0..<length ss]
       \<and> (\<forall>i < length ss. int i < patience es \<longrightarrow> \<not> fst (fst (early_stop_seq es ss) ! i))
       \<and> (nat (patience es) < length ss \<longrightarrow>
            fst (fst (early_stop_seq es ss) ! nat (patience es)))"
proof -
  have eq: "fst (early_stop_seq es ss)
              = map (\<lambda>i. (patience es < int i + 1, False)) [0..<length ss]"
    using early_stop_seq_regressions [OF assms(2) assms(4) assms(5) assms(6)] assms(3)
    by simp
  show ?thesis using assms(1) by (simp add: eq)
qed

theorem patience_budget_witness:
  "fst (early_stop_seq \<lparr>patience = 2, min_delta = 1, counter = 0,
                         max_validation_mAP = Fin 12, threshold = 95\<rparr> [10, 9, 8, 7])
     = [(False, False), (False, False), (True, False), (True, False)]
   \<and> fst (early_stop_seq \<lparr>patience = 0, min_delta = 0, counter = 0,
                           max_validation_mAP = Fin 12, threshold = 95\<rparr> [11])
     = [(True, False)]"
  using
    patience_budget [of "\<lparr>patience = 2, min_delta = 1, counter = 0,
      max_validation_mAP = Fin 12, threshold = 95\<rparr>" 12 "[10, 9, 8, 7]"]
    patience_budget [of "\<lparr>patience = 0, min_delta = 0, counter = 0,
      max_validation_mAP = Fin 12, threshold = 95\<rparr>" 12 "[11]"]
  by (simp add: upt_conv_Cons rd_11 rd_12 is_double_12)

lemma early_stop_threshold_same: "threshold (snd (early_stop es s)) = threshold es"
  by (simp add: early_stop_def Let_def)

lemma early_stop_max:
  "max_validation_mAP (snd (early_stop es s)) =
     (if s < threshold es \<and> gt_x s (max_validation_mAP es) then Fin s
      else max_validation_mAP es)"
  by (simp add: early_stop_def Let_def)

lemma Max_insert_if:
  "finite A \<Longrightarrow> Max (insert (x::real) A) = (if A = {} then x else max x (Max A))"
  by simp

lemma best_of_step:
  assumes "finite A"
  shows "best_of (if gt_x s b then Fin s else b) A = best_of b (insert s A)"
proof (cases b)
  case NegInf
  then show ?thesis using assms by (simp add: best_of_def)
next
  case PosInf
  then show ?thesis by (simp add: best_of_def)
next
  case (Fin m)
  have "Max (insert m (insert s A)) = (if m < s then Max (insert s A) else Max (insert m A))"
    using assms by (simp add: Max_insert_if del: Max_insert) (auto simp: max_def)
  then show ?thesis using Fin by (simp add: best_of_def del: Max_insert)
qed

lemma early_stop_seq_max:
  "max_validation_mAP (snd (early_stop_seq es ss)) =
     best_of (max_validation_mAP es) {s \<in> set ss. s < threshold es}"
proof (induction ss arbitrary: es)
  case Nil
  then show ?case by (simp add: best_of_def split: xreal.splits)
next
  case (Cons s ss)
  let ?es' = "snd (early_stop es s)"
  let ?A = "{x \<in> set ss. x < threshold es}"
  have fin: "finite ?A" by simp
  have "max_validation_mAP (snd (early_stop_seq es (s # ss)))
        = max_validation_mAP (snd (early_stop_seq ?es' ss))"
    by (simp add: split_beta Let_def)
  also have "\<dots> = best_of (max_validation_mAP ?es') ?A"
    by (simp add: Cons.IH early_stop_threshold_same)
  also have "\<dots> = best_of (max_validation_mAP es) {x \<in> set (s # ss). x < threshold es}"
  proof (cases "s < threshold es")
    case True
    then have "{x \<in> set (s # ss). x < threshold es} = insert s ?A" by auto
    then show ?thesis using True best_of_step[OF fin, of s "max_validation_mAP es"]
      by (simp add: early_stop_max)
  next
    case False
    then have "{x \<in> set (s # ss). x < threshold es} = ?A" by auto
    then show ?thesis using False by (simp add: early_stop_max)
  qed
  finally show ?case .
qed

text \<open>
  C4. After any finite sequence of calls on a newly built stopper, the stored best score is
  the maximum of minus infinity and the scores of the sequence that were below the
  threshold: minus infinity when there is none, their greatest otherwise. A call with a
  score at or above the threshold returns (stop = True, save = True) from any state and
  leaves the object, and with it the best score and the counter, unchanged.
\<close>

theorem best_score_is_running_maximum:
  "max_validation_mAP (snd (early_stop_seq (EarlyStopper_init p d t) ss))
     = (if {s \<in> set ss. s < t} = {} then NegInf else Fin (Max {s \<in> set ss. s < t}))
   \<and> (threshold es \<le> s \<longrightarrow> early_stop es s = ((True, True), es))"
  by (simp add: early_stop_seq_max best_of_def EarlyStopper_init_def early_stop_def)

theorem best_score_is_running_maximum_witness:
  "max_validation_mAP (snd (early_stop_seq (EarlyStopper_init 2 1 95) [10, 96, 12, 11]))
     = Fin 12
   \<and> (95::real) \<le> 96
   \<and> early_stop \<lparr>patience = 2, min_delta = 1, counter = 1, max_validation_mAP = Fin 12,
                    threshold = 95\<rparr> 96
       = ((True, True), \<lparr>patience = 2, min_delta = 1, counter = 1,
                          max_validation_mAP = Fin 12, threshold = 95\<rparr>)"
proof -
  have set_eq: "{s \<in> set [10, 96, 12, 11]. s < (95::real)} = {10, 12, 11}"
    by auto
  show ?thesis
    using best_score_is_running_maximum [of 2 1 95 "[10, 96, 12, 11]"
      "\<lparr>patience = 2, min_delta = 1, counter = 1, max_validation_mAP = Fin 12,
        threshold = 95\<rparr>" 96, unfolded set_eq]
    by simp
qed

section \<open>Properties of the epoch loop\<close>

subsection \<open>One iteration\<close>

lemma paths_differ: "last_path a \<noteq> best_path a"
  by (simp add: last_path_def best_path_def os_path_join_def)

lemma trained_trace [simp]: "trained env (w\<lparr>trace := t\<rparr>) = trained env w"
  by (simp add: trained_def)

lemma train_eq:
  "train env w =
     (w\<lparr>model_state := fst (fst (trained env w)),
        opt_state := fst (snd (fst (trained env w))),
        sched_state := snd (snd (fst (trained env w)))\<rparr>, snd (trained env w))"
  by (simp add: train_def trained_def split_beta)

lemma validate_eq:
  "validate env w = (w\<lparr>training := False\<rparr>, validate_fn env (model_state w))"
  by (simp add: validate_def Let_def)

text \<open>
  The loop body, with the values of the iteration named: everything up to the call of
  \<^verbatim>\<open>early_stop\<close> always runs, the two saves and the stop test follow.
\<close>

lemma loop_body_eq:
  "loop_body env a ep w =
     (case torch_save env (last_path a) (config_of env ep w) (evaluated env ep w) of
        (Some f, w4) \<Rightarrow> (Raise f, w4)
      | (None, w4) \<Rightarrow>
          (case (if snd (decision env w)
                 then torch_save env (best_path a) (config_of env ep w) w4
                 else (None, w4)) of
             (Some f, w5) \<Rightarrow> (Raise f, w5)
           | (None, w5) \<Rightarrow>
               if fst (decision env w)
               then (Break, w5\<lparr>trace := trace w5 @ [PrintStop (ep + 1)]\<rparr>)
               else (Continue, w5)))"
proof -
  obtain stop save st
    where es: "early_stop (early_stopper w) (validate_fn env (fst (fst (trained env w))))
                 = ((stop, save), st)"
    by (cases "early_stop (early_stopper w) (validate_fn env (fst (fst (trained env w))))") auto
  show ?thesis
    by (simp add: loop_body_def Let_def train_eq validate_eq config_of_def evaluated_def
        decision_def val_score_def es cong: if_cong prod.case_cong option.case_cong)
qed

lemma config_of_epoch [simp]: "epoch (config_of env ep w) = ep + 1"
  by (simp add: config_of_def)

lemma evaluated_simps [simp]:
  "files (evaluated env ep w) = files w"
  "training (evaluated env ep w) = False"
  "early_stopper (evaluated env ep w) = snd (early_stop (early_stopper w) (val_score env w))"
  "trace (evaluated env ep w)
     = trace w @ [TrainPass ep (training w), ValidatePass ep, EarlyStopCall (val_score env w)]"
  by (simp_all add: evaluated_def)

lemma loop_body_trace:
  "trace (snd (loop_body env a ep w)) =
     trace w @ [TrainPass ep (training w), ValidatePass ep, EarlyStopCall (val_score env w)] @
     (case save_result env (last_path a) (ep + 1) of
        Completes \<Rightarrow>
          TorchSave (last_path a) (config_of env ep w) #
          (if snd (decision env w) then
             (case save_result env (best_path a) (ep + 1) of
                Completes \<Rightarrow> TorchSave (best_path a) (config_of env ep w) # stop_line env ep w
              | _ \<Rightarrow> [TorchSaveFailed (best_path a)])
           else stop_line env ep w)
      | _ \<Rightarrow> [TorchSaveFailed (last_path a)])"
  by (simp add: loop_body_eq torch_save_def stop_line_def split: write_result.splits)

lemma loop_body_flow:
  "fst (loop_body env a ep w) =
     (case save_result env (last_path a) (ep + 1) of
        Completes \<Rightarrow>
          (if snd (decision env w) then
             (case save_result env (best_path a) (ep + 1) of
                Completes \<Rightarrow> stop_flow env w
              | _ \<Rightarrow> Raise SaveFailed)
           else stop_flow env w)
      | _ \<Rightarrow> Raise SaveFailed)"
  by (simp add: loop_body_eq torch_save_def stop_flow_def split: write_result.splits)

lemma loop_body_files:
  "files (snd (loop_body env a ep w)) =
     (case save_result env (last_path a) (ep + 1) of
        Completes \<Rightarrow>
          (if snd (decision env w) then
             (case save_result env (best_path a) (ep + 1) of
                Completes \<Rightarrow> (files w)(last_path a \<mapsto> Valid (config_of env ep w),
                                       best_path a \<mapsto> Valid (config_of env ep w))
              | FailsOnOpen \<Rightarrow> (files w)(last_path a \<mapsto> Valid (config_of env ep w))
              | FailsMidWrite \<Rightarrow> (files w)(last_path a \<mapsto> Valid (config_of env ep w),
                                           best_path a \<mapsto> Partial))
           else (files w)(last_path a \<mapsto> Valid (config_of env ep w)))
      | FailsOnOpen \<Rightarrow> files w
      | FailsMidWrite \<Rightarrow> (files w)(last_path a \<mapsto> Partial))"
  by (simp add: loop_body_eq torch_save_def split: write_result.splits)

lemma loop_body_training: "training (snd (loop_body env a ep w)) = False"
  by (simp add: loop_body_eq torch_save_def split: write_result.splits)

lemma loop_body_stopper:
  "early_stopper (snd (loop_body env a ep w))
     = snd (early_stop (early_stopper w) (val_score env w))"
  by (simp add: loop_body_eq torch_save_def split: write_result.splits)

lemma early_stop_at_threshold:
  "threshold es \<le> s \<Longrightarrow> early_stop es s = ((True, True), es)"
  by (simp add: early_stop_def)

lemma loop_body_threshold:
  "threshold (early_stopper (snd (loop_body env a ep w))) = threshold (early_stopper w)"
  by (simp add: loop_body_stopper early_stop_threshold_same)

lemma loop_body_flow_ok:
  "\<forall>p e. save_result env p e = Completes \<Longrightarrow> fst (loop_body env a ep w) = stop_flow env w"
  by (simp add: loop_body_flow)

lemma loop_body_continues:
  "fst (loop_body env a ep w) \<noteq> Raise SaveFailed \<Longrightarrow>
     save_result env (last_path a) (ep + 1) = Completes"
  by (simp add: loop_body_flow split: write_result.splits)


lemma loop_body_break:
  assumes "fst (loop_body env a ep w) = Break"
  shows "fst (decision env w)"
    and "trace (snd (loop_body env a ep w)) =
       trace w @ [TrainPass ep (training w), ValidatePass ep, EarlyStopCall (val_score env w),
                  TorchSave (last_path a) (config_of env ep w)]
       @ (if snd (decision env w) then [TorchSave (best_path a) (config_of env ep w)] else [])
       @ [PrintStop (ep + 1)]"
  using assms
  by (auto simp: loop_body_flow loop_body_trace stop_flow_def stop_line_def
      split: write_result.splits if_splits)

lemma trained_epochs_append:
  "trained_epochs (xs @ ys) = trained_epochs xs @ trained_epochs ys"
  by (induction xs rule: trained_epochs.induct) simp_all

lemma saved_epochs_append:
  "saved_epochs p (xs @ ys) = saved_epochs p xs @ saved_epochs p ys"
  by (induction p xs rule: saved_epochs.induct) simp_all

lemma loop_body_trained:
  "trained_epochs (trace (snd (loop_body env a ep w))) = trained_epochs (trace w) @ [ep]"
  by (simp add: loop_body_trace trained_epochs_append stop_line_def split: write_result.splits)

lemma loop_body_saved:
  "saved_epochs (last_path a) (trace (snd (loop_body env a ep w))) =
     saved_epochs (last_path a) (trace w) @
     (if save_result env (last_path a) (ep + 1) = Completes then [ep + 1] else [])"
  using paths_differ [of a]
  by (simp add: loop_body_trace saved_epochs_append stop_line_def split: write_result.splits)

subsection \<open>The whole loop\<close>

lemma epoch_loop_done:
  "\<not> ep < num_epochs a \<Longrightarrow> epoch_loop env a ep w = (StoppedBudget, w)"
  by (simp add: epoch_loop.simps)

lemma epoch_loop_step:
  "ep < num_epochs a \<Longrightarrow>
     epoch_loop env a ep w =
       (case fst (loop_body env a ep w) of
          Continue \<Rightarrow> epoch_loop env a (ep + 1) (snd (loop_body env a ep w))
        | Break \<Rightarrow> (StoppedEarly (ep + 1), snd (loop_body env a ep w))
        | Raise f \<Rightarrow> (Fatal f, snd (loop_body env a ep w)))"
  by (subst epoch_loop.simps) (simp add: split_beta)

lemma epoch_loop_epochs:
  "\<exists>n m. m \<le> n
     \<and> trained_epochs (trace (snd (epoch_loop env a ep w)))
         = trained_epochs (trace w) @ map (\<lambda>i. ep + int i) [0..<n]
     \<and> saved_epochs (last_path a) (trace (snd (epoch_loop env a ep w)))
         = saved_epochs (last_path a) (trace w) @ map (\<lambda>i. ep + int i + 1) [0..<m]
     \<and> (ep < num_epochs a \<longrightarrow> 0 < n)
     \<and> (ep < num_epochs a \<and> save_result env (last_path a) (ep + 1) = Completes \<longrightarrow> 0 < m)
     \<and> ((\<forall>p e. save_result env p e = Completes) \<longrightarrow> m = n)"
proof (induction env a ep w rule: epoch_loop.induct)
  case (1 env a ep w)
  let ?b = "loop_body env a ep w"
  show ?case
  proof (cases "ep < num_epochs a")
    case False
    then have "epoch_loop env a ep w = (StoppedBudget, w)" by (rule epoch_loop_done)
    then show ?thesis using False by (intro exI [of _ 0]) simp
  next
    case True
    note step = epoch_loop_step [OF True, of env w]
    show ?thesis
    proof (cases "fst ?b")
      case Continue
      then have lp: "epoch_loop env a ep w = epoch_loop env a (ep + 1) (snd ?b)"
        using step by simp
      have last_ok: "save_result env (last_path a) (ep + 1) = Completes"
        using Continue by (intro loop_body_continues [of env a ep w]) simp
      note ih = "1.IH" [OF True prod.collapse Continue]
      from ih obtain n m where nm: "m \<le> n"
        and tr: "trained_epochs (trace (snd (epoch_loop env a (ep + 1) (snd ?b))))
                   = trained_epochs (trace (snd ?b)) @ map (\<lambda>i. ep + 1 + int i) [0..<n]"
        and sv: "saved_epochs (last_path a) (trace (snd (epoch_loop env a (ep + 1) (snd ?b))))
                   = saved_epochs (last_path a) (trace (snd ?b))
                     @ map (\<lambda>i. ep + 1 + int i + 1) [0..<m]"
        and all: "(\<forall>p e. save_result env p e = Completes) \<longrightarrow> m = n"
        by blast
      have "trained_epochs (trace (snd (epoch_loop env a ep w)))
              = trained_epochs (trace w) @ map (\<lambda>i. ep + int i) [0..<Suc n]"
        by (simp add: lp tr loop_body_trained map_upt_Suc add.assoc del: upt_Suc)
      moreover have "saved_epochs (last_path a) (trace (snd (epoch_loop env a ep w)))
              = saved_epochs (last_path a) (trace w) @ map (\<lambda>i. ep + int i + 1) [0..<Suc m]"
        by (simp add: lp sv loop_body_saved last_ok map_upt_Suc add.assoc del: upt_Suc)
      ultimately show ?thesis using nm all
        by (intro exI [of _ "Suc n"] exI [of _ "Suc m"]) simp
    next
      case Break
      then have lp: "epoch_loop env a ep w = (StoppedEarly (ep + 1), snd ?b)"
        using step by simp
      have last_ok: "save_result env (last_path a) (ep + 1) = Completes"
        using Break by (intro loop_body_continues [of env a ep w]) simp
      show ?thesis
        by (intro exI [of _ "Suc 0"]) (simp add: lp loop_body_trained loop_body_saved last_ok)
    next
      case (Raise f)
      then have lp: "epoch_loop env a ep w = (Fatal f, snd ?b)"
        using step by simp
      have failing: "\<not> (\<forall>p e. save_result env p e = Completes)"
      proof
        assume "\<forall>p e. save_result env p e = Completes"
        then have "fst ?b = stop_flow env w" by (rule loop_body_flow_ok)
        with Raise show False by (simp add: stop_flow_def split: if_splits)
      qed
      show ?thesis
      proof (cases "save_result env (last_path a) (ep + 1) = Completes")
        case True
        then show ?thesis using failing
          by (intro exI [of _ "Suc 0"]) (simp add: lp loop_body_trained loop_body_saved)
      next
        case False
        then show ?thesis using failing
          by (intro exI [of _ "Suc 0"] exI [of _ 0])
             (simp add: lp loop_body_trained loop_body_saved)
      qed
    qed
  qed
qed

lemma epoch_loop_stopped_early:
  "epoch_loop env a ep w = (StoppedEarly c, w') \<Longrightarrow>
     \<exists>w0. fst (loop_body env a (c - 1) w0) = Break \<and> snd (loop_body env a (c - 1) w0) = w'
        \<and> threshold (early_stopper w0) = threshold (early_stopper w)"
proof (induction env a ep w rule: epoch_loop.induct)
  case (1 env a ep w)
  let ?b = "loop_body env a ep w"
  from "1.prems" have lt: "ep < num_epochs a"
    by (cases "ep < num_epochs a") (simp_all add: epoch_loop_done)
  note step = epoch_loop_step [OF lt, of env w]
  show ?case
  proof (cases "fst ?b")
    case Continue
    then have "epoch_loop env a (ep + 1) (snd ?b) = (StoppedEarly c, w')"
      using step "1.prems" by simp
    from "1.IH" [OF lt prod.collapse Continue this]
    show ?thesis by (simp add: loop_body_threshold)
  next
    case Break
    then have "c = ep + 1" and "w' = snd ?b" using step "1.prems" by simp_all
    then show ?thesis using Break by (intro exI [of _ w]) simp
  next
    case (Raise f)
    then show ?thesis using step "1.prems" by simp
  qed
qed


lemma main_fresh:
  assumes "path_exists env (save_folder a) \<or> mkdir_ok env (save_folder a)"
    and "dataset a = ''cufed''" and "\<not> resuming a"
  shows "main env a fs =
     (fst (epoch_loop env a 0
            ((loop_entry a fs (fresh_data env))\<lparr>trace := startup_trace env a\<rparr>)),
      files (snd (epoch_loop env a 0
            ((loop_entry a fs (fresh_data env))\<lparr>trace := startup_trace env a\<rparr>))),
      trace (snd (epoch_loop env a 0
            ((loop_entry a fs (fresh_data env))\<lparr>trace := startup_trace env a\<rparr>))))"
  using assms
  by (auto simp: main_def os_mkdir_def startup_trace_def Let_def split_beta loop_entry_def
      fresh_data_def)

lemma main_resumed:
  assumes "path_exists env (save_folder a) \<or> mkdir_ok env (save_folder a)"
    and "dataset a = ''cufed''" and "resuming a"
    and "fs (the (resume a)) = Some (Valid data)"
  shows "main env a fs =
     (fst (epoch_loop env a (epoch data)
            ((loop_entry a fs data)\<lparr>trace := startup_trace env a\<rparr>)),
      files (snd (epoch_loop env a (epoch data)
            ((loop_entry a fs data)\<lparr>trace := startup_trace env a\<rparr>))),
      trace (snd (epoch_loop env a (epoch data)
            ((loop_entry a fs data)\<lparr>trace := startup_trace env a\<rparr>))))"
  using assms
  by (auto simp: main_def os_mkdir_def startup_trace_def Let_def split_beta loop_entry_def
      torch_load_def)

lemma main_mkdir_fails:
  assumes "\<not> path_exists env (save_folder a)" and "\<not> mkdir_ok env (save_folder a)"
  shows "main env a fs = (Fatal MkdirFailed, fs, [])"
  using assms by (simp add: main_def os_mkdir_def)

lemma startup_trace_epochs [simp]:
  "trained_epochs (startup_trace env a) = []"
  "saved_epochs p (startup_trace env a) = []"
  by (simp_all add: startup_trace_def)

lemma loop_entry_trace [simp]: "trace (loop_entry a fs data) = []"
  by (simp add: loop_entry_def)

lemma loop_entry_files [simp]: "files (loop_entry a fs data) = fs"
  by (simp add: loop_entry_def)

lemma early_stop_negative_patience:
  assumes "patience es < 0" and "0 \<le> counter es" and "s < threshold es"
    and "\<not> gt_x s (max_validation_mAP es)"
    and "lt_x s (minus_x (max_validation_mAP es) (min_delta es))"
  shows "fst (early_stop es s) = (True, False)"
  using assms by (simp add: early_stop_def Let_def del: minus_x.simps)

text \<open>
  The equations that evaluate a concrete run.
\<close>

lemmas run_defs =
  main_def os_mkdir_def default_args_def resuming_def torch_load_def loop_body_def
  train_def validate_def torch_save_def early_stop_def EarlyStopper_init_def scripted_def
  Let_def last_path_def best_path_def os_path_join_def

lemmas eval_defs = run_defs epoch_loop_step epoch_loop_done loop_entry_def fresh_data_def
  all_complete_def val_score_def decision_def config_of_def trained_def

lemmas iter_defs =
  val_score_def decision_def config_of_def trained_def scripted_def loop_entry_def
  fresh_data_def early_stop_def EarlyStopper_init_def default_args_def last_path_def
  best_path_def os_path_join_def all_complete_def

subsection \<open>Order of the steps of an iteration\<close>

text \<open>
  C5. An iteration whose saves complete runs the training pass, then the validation pass,
  then \<^verbatim>\<open>early_stop\<close> on the validation score, then writes the last checkpoint, then
  writes the best checkpoint exactly when \<^verbatim>\<open>early_stop\<close> asked for it, and only then looks
  at the stop signal: the line \<^verbatim>\<open>Stop at epoch\<close> and the \<^verbatim>\<open>break\<close> come after both writes.
  Consequently a loop that stops early at epoch count \<open>c\<close> ends its trace with the passes of
  epoch index \<open>c - 1\<close>, the write of the last checkpoint, the write of the best checkpoint
  when it was asked for, and the stop line; when the score reached the threshold the best
  checkpoint is among them.
\<close>

theorem iteration_order:
  "(save_result env (last_path a) (ep + 1) = Completes
      \<and> (snd (decision env w) \<longrightarrow> save_result env (best_path a) (ep + 1) = Completes) \<longrightarrow>
      trace (snd (loop_body env a ep w)) =
        trace w @ [TrainPass ep (training w), ValidatePass ep, EarlyStopCall (val_score env w),
                   TorchSave (last_path a) (config_of env ep w)]
        @ (if snd (decision env w) then [TorchSave (best_path a) (config_of env ep w)] else [])
        @ (if fst (decision env w) then [PrintStop (ep + 1)] else [])
      \<and> fst (loop_body env a ep w) = (if fst (decision env w) then Break else Continue))
   \<and> (epoch_loop env a ep w = (StoppedEarly c, w') \<longrightarrow>
        (\<exists>w0. trace w' =
           trace w0 @ [TrainPass (c - 1) (training w0), ValidatePass (c - 1),
                       EarlyStopCall (val_score env w0),
                       TorchSave (last_path a) (config_of env (c - 1) w0)]
           @ (if snd (decision env w0)
              then [TorchSave (best_path a) (config_of env (c - 1) w0)] else [])
           @ [PrintStop c]
         \<and> (threshold (early_stopper w) \<le> val_score env w0 \<longrightarrow> snd (decision env w0))))"
proof (intro conjI impI)
  assume ok: "save_result env (last_path a) (ep + 1) = Completes
      \<and> (snd (decision env w) \<longrightarrow> save_result env (best_path a) (ep + 1) = Completes)"
  show "trace (snd (loop_body env a ep w)) =
        trace w @ [TrainPass ep (training w), ValidatePass ep, EarlyStopCall (val_score env w),
                   TorchSave (last_path a) (config_of env ep w)]
        @ (if snd (decision env w) then [TorchSave (best_path a) (config_of env ep w)] else [])
        @ (if fst (decision env w) then [PrintStop (ep + 1)] else [])"
    using ok by (simp add: loop_body_trace stop_line_def)
  show "fst (loop_body env a ep w) = (if fst (decision env w) then Break else Continue)"
    using ok by (simp add: loop_body_flow stop_flow_def)
next
  assume "epoch_loop env a ep w = (StoppedEarly c, w')"
  from epoch_loop_stopped_early [OF this]
  obtain w0 where br: "fst (loop_body env a (c - 1) w0) = Break"
    and w': "snd (loop_body env a (c - 1) w0) = w'"
    and th: "threshold (early_stopper w0) = threshold (early_stopper w)"
    by blast
  have "trace w' =
           trace w0 @ [TrainPass (c - 1) (training w0), ValidatePass (c - 1),
                       EarlyStopCall (val_score env w0),
                       TorchSave (last_path a) (config_of env (c - 1) w0)]
           @ (if snd (decision env w0)
              then [TorchSave (best_path a) (config_of env (c - 1) w0)] else [])
           @ [PrintStop c]"
    using loop_body_break(2) [OF br] w' by simp
  moreover have "threshold (early_stopper w) \<le> val_score env w0 \<longrightarrow> snd (decision env w0)"
    using th by (simp add: decision_def early_stop_at_threshold)
  ultimately show "\<exists>w0. trace w' =
           trace w0 @ [TrainPass (c - 1) (training w0), ValidatePass (c - 1),
                       EarlyStopCall (val_score env w0),
                       TorchSave (last_path a) (config_of env (c - 1) w0)]
           @ (if snd (decision env w0)
              then [TorchSave (best_path a) (config_of env (c - 1) w0)] else [])
           @ [PrintStop c]
         \<and> (threshold (early_stopper w) \<le> val_score env w0 \<longrightarrow> snd (decision env w0))"
    by blast
qed

theorem iteration_order_witness:
  "(save_result (scripted [10, 96] all_complete) (last_path (default_args 5 30 None)) (0 + 1) = Completes
      \<and> snd (decision (scripted [10, 96] all_complete)
             (loop_entry (default_args 5 30 None) Map.empty (fresh_data (scripted [10, 96] all_complete))))
      \<and> save_result (scripted [10, 96] all_complete) (best_path (default_args 5 30 None)) (0 + 1) = Completes)
   \<and> trace (snd (loop_body (scripted [10, 96] all_complete) (default_args 5 30 None) 0
        (loop_entry (default_args 5 30 None) Map.empty (fresh_data (scripted [10, 96] all_complete)))))
     = [TrainPass 0 True, ValidatePass 0, EarlyStopCall 10,
        TorchSave ''weights/last-vigat-cufed.pt''
          \<lparr>epoch = 1, loss = 1, model_state_dict = 1, opt_state_dict = 1, sched_state_dict = 1\<rparr>,
        TorchSave ''weights/best-vigat-cufed.pt''
          \<lparr>epoch = 1, loss = 1, model_state_dict = 1, opt_state_dict = 1, sched_state_dict = 1\<rparr>]
   \<and> fst (loop_body (scripted [10, 96] all_complete) (default_args 5 30 None) 0
        (loop_entry (default_args 5 30 None) Map.empty (fresh_data (scripted [10, 96] all_complete)))) = Continue
   \<and> fst (epoch_loop (scripted [10, 96] all_complete) (default_args 5 30 None) 0
        (loop_entry (default_args 5 30 None) Map.empty (fresh_data (scripted [10, 96] all_complete)))) = StoppedEarly 2
   \<and> (\<exists>w0. trace (snd (epoch_loop (scripted [10, 96] all_complete) (default_args 5 30 None) 0
        (loop_entry (default_args 5 30 None) Map.empty (fresh_data (scripted [10, 96] all_complete))))) =
           trace w0 @ [TrainPass (2 - 1) (training w0), ValidatePass (2 - 1),
                       EarlyStopCall (val_score (scripted [10, 96] all_complete) w0),
                       TorchSave (last_path (default_args 5 30 None))
                         (config_of (scripted [10, 96] all_complete) (2 - 1) w0)]
           @ (if snd (decision (scripted [10, 96] all_complete) w0)
              then [TorchSave (best_path (default_args 5 30 None))
                      (config_of (scripted [10, 96] all_complete) (2 - 1) w0)] else [])
           @ [PrintStop 2])"
proof -
  let ?E = "scripted [10, 96] all_complete"
  let ?A = "default_args 5 30 None"
  let ?W = "loop_entry ?A Map.empty (fresh_data ?E)"
  have asked: "save_result ?E (last_path ?A) (0 + 1) = Completes
      \<and> snd (decision ?E ?W)
      \<and> save_result ?E (best_path ?A) (0 + 1) = Completes"
    by (simp add: iter_defs)
  then have saves: "save_result ?E (last_path ?A) (0 + 1) = Completes
      \<and> (snd (decision ?E ?W) \<longrightarrow> save_result ?E (best_path ?A) (0 + 1) = Completes)"
    by blast
  have run: "epoch_loop ?E ?A 0 ?W = (StoppedEarly 2, snd (epoch_loop ?E ?A 0 ?W))"
    by (simp add: eval_defs)
  note inst = iteration_order [of ?E ?A 0 ?W 2 "snd (epoch_loop ?E ?A 0 ?W)"]
  have first: "trace (snd (loop_body ?E ?A 0 ?W))
     = [TrainPass 0 True, ValidatePass 0, EarlyStopCall 10,
        TorchSave ''weights/last-vigat-cufed.pt''
          \<lparr>epoch = 1, loss = 1, model_state_dict = 1, opt_state_dict = 1, sched_state_dict = 1\<rparr>,
        TorchSave ''weights/best-vigat-cufed.pt''
          \<lparr>epoch = 1, loss = 1, model_state_dict = 1, opt_state_dict = 1, sched_state_dict = 1\<rparr>]"
    and flow: "fst (loop_body ?E ?A 0 ?W) = Continue"
    using inst [THEN conjunct1, rule_format, OF saves] by (simp_all add: iter_defs)
  have stopped: "fst (epoch_loop ?E ?A 0 ?W) = StoppedEarly 2"
    by (simp add: eval_defs)
  from inst [THEN conjunct2, rule_format, OF run]
  obtain w0 where "trace (snd (epoch_loop ?E ?A 0 ?W)) =
           trace w0 @ [TrainPass (2 - 1) (training w0), ValidatePass (2 - 1),
                       EarlyStopCall (val_score ?E w0),
                       TorchSave (last_path ?A) (config_of ?E (2 - 1) w0)]
           @ (if snd (decision ?E w0)
              then [TorchSave (best_path ?A) (config_of ?E (2 - 1) w0)] else [])
           @ [PrintStop 2]"
    by blast
  with asked first flow stopped show ?thesis by blast
qed

subsection \<open>Epoch counts of a run\<close>

text \<open>
  C6. Take a run whose start-up succeeds: the save folder exists or can be made, the
  dataset is \<^verbatim>\<open>cufed\<close>, and a checkpoint to resume from, if one is asked for, loads. Let \<open>k\<close>
  be the epoch field of that checkpoint, or 0 for a run without \<^verbatim>\<open>--resume\<close>. The epoch
  indices trained are \<open>k, k + 1, \<dots>\<close> without a gap, the epoch fields written to the last
  checkpoint are \<open>k + 1, k + 2, \<dots>\<close>, one per iteration whose first save completed. If
  \<open>k\<close> is below the epoch budget the iteration of index \<open>k\<close> runs, and the checkpoint it
  writes has epoch field \<open>k + 1\<close>; for a run without \<^verbatim>\<open>--resume\<close> that is 1.
\<close>

theorem epoch_fields_consecutive:
  assumes "path_exists env (save_folder a) \<or> mkdir_ok env (save_folder a)"
    and "dataset a = ''cufed''"
    and "if resuming a then fs (the (resume a)) = Some (Valid data) \<and> k = epoch data else k = 0"
  shows "\<exists>n m. m \<le> n
     \<and> trained_epochs (snd (snd (main env a fs))) = map (\<lambda>i. k + int i) [0..<n]
     \<and> saved_epochs (last_path a) (snd (snd (main env a fs)))
         = map (\<lambda>i. k + int i + 1) [0..<m]
     \<and> (k < num_epochs a \<longrightarrow> 0 < n)
     \<and> (k < num_epochs a \<and> save_result env (last_path a) (k + 1) = Completes \<longrightarrow> 0 < m)
     \<and> ((\<forall>p e. save_result env p e = Completes) \<longrightarrow> m = n)"
proof (cases "resuming a")
  case True
  let ?w = "(loop_entry a fs data)\<lparr>trace := startup_trace env a\<rparr>"
  from True assms have m: "snd (snd (main env a fs)) = trace (snd (epoch_loop env a k ?w))"
    by (simp add: main_resumed)
  show ?thesis
    using epoch_loop_epochs [of env a k ?w] by (simp add: m)
next
  case False
  let ?w = "(loop_entry a fs (fresh_data env))\<lparr>trace := startup_trace env a\<rparr>"
  from False assms have m: "snd (snd (main env a fs)) = trace (snd (epoch_loop env a k ?w))"
    by (simp add: main_fresh)
  show ?thesis
    using epoch_loop_epochs [of env a k ?w] by (simp add: m)
qed

theorem epoch_fields_consecutive_witness:
  "path_exists (scripted [10, 11, 12, 13, 14] all_complete)
     (save_folder (default_args 5 30 (Some ''weights/last-vigat-cufed.pt'')))
   \<and> dataset (default_args 5 30 (Some ''weights/last-vigat-cufed.pt'')) = ''cufed''
   \<and> resuming (default_args 5 30 (Some ''weights/last-vigat-cufed.pt''))
   \<and> (\<exists>n m. m \<le> n
     \<and> trained_epochs (snd (snd (main (scripted [10, 11, 12, 13, 14] all_complete)
           (default_args 5 30 (Some ''weights/last-vigat-cufed.pt''))
           [''weights/last-vigat-cufed.pt'' \<mapsto> Valid (saved_at 3)])))
         = map (\<lambda>i. 3 + int i) [0..<n]
     \<and> saved_epochs (last_path (default_args 5 30 (Some ''weights/last-vigat-cufed.pt'')))
          (snd (snd (main (scripted [10, 11, 12, 13, 14] all_complete)
           (default_args 5 30 (Some ''weights/last-vigat-cufed.pt''))
           [''weights/last-vigat-cufed.pt'' \<mapsto> Valid (saved_at 3)])))
         = map (\<lambda>i. 3 + int i + 1) [0..<m]
     \<and> 0 < n \<and> 0 < m \<and> m = n)
   \<and> trained_epochs (snd (snd (main (scripted [10, 11, 12, 13, 14] all_complete)
           (default_args 5 30 (Some ''weights/last-vigat-cufed.pt''))
           [''weights/last-vigat-cufed.pt'' \<mapsto> Valid (saved_at 3)]))) = [3, 4]
   \<and> saved_epochs ''weights/last-vigat-cufed.pt''
          (snd (snd (main (scripted [10, 11, 12, 13, 14] all_complete)
           (default_args 5 30 (Some ''weights/last-vigat-cufed.pt''))
           [''weights/last-vigat-cufed.pt'' \<mapsto> Valid (saved_at 3)]))) = [4, 5]"
proof -
  let ?E = "scripted [10, 11, 12, 13, 14] all_complete"
  let ?A = "default_args 5 30 (Some ''weights/last-vigat-cufed.pt'')"
  let ?fs = "[''weights/last-vigat-cufed.pt'' \<mapsto> Valid (saved_at 3)]"
  have cufed: "dataset ?A = ''cufed''" and res: "resuming ?A"
    by (simp_all add: default_args_def resuming_def)
  have folder: "path_exists ?E (save_folder ?A)" by (simp add: scripted_def)
  then have up: "path_exists ?E (save_folder ?A) \<or> mkdir_ok ?E (save_folder ?A)" ..
  have start: "if resuming ?A
      then ?fs (the (resume ?A)) = Some (Valid (saved_at 3)) \<and> 3 = epoch (saved_at 3)
      else (3::int) = 0"
    by (simp add: default_args_def resuming_def saved_at_def)
  have budget: "3 < num_epochs ?A" by (simp add: default_args_def)
  have ok: "\<forall>p e. save_result ?E p e = Completes"
    by (simp add: scripted_def all_complete_def)
  from epoch_fields_consecutive [of ?E ?A ?fs "saved_at 3" 3, OF up cufed start] budget ok
  have ex: "\<exists>n m. m \<le> n
     \<and> trained_epochs (snd (snd (main ?E ?A ?fs))) = map (\<lambda>i. 3 + int i) [0..<n]
     \<and> saved_epochs (last_path ?A) (snd (snd (main ?E ?A ?fs)))
         = map (\<lambda>i. 3 + int i + 1) [0..<m]
     \<and> 0 < n \<and> 0 < m \<and> m = n"
    by blast
  have "trained_epochs (snd (snd (main ?E ?A ?fs))) = [3, 4]"
    and "saved_epochs ''weights/last-vigat-cufed.pt'' (snd (snd (main ?E ?A ?fs))) = [4, 5]"
    by (simp_all add: eval_defs saved_at_def)
  with folder cufed res ex show ?thesis by blast
qed

subsection \<open>Failing saves\<close>

text \<open>
  C7, as stated: a failure during a save never leaves a previously valid last checkpoint
  partial. This fails: the run hands the path of the last checkpoint itself to
  \<^verbatim>\<open>torch.save\<close>. With a valid last checkpoint on disk and a save that is interrupted after
  the file was opened, the run ends with a fatal error and the path holds a partial file.
\<close>

theorem failed_save_destroys_last:
  "[''weights/last-vigat-cufed.pt'' \<mapsto> Valid (saved_at 3)] ''weights/last-vigat-cufed.pt''
     = Some (Valid (saved_at 3))
   \<and> fst (main (scripted [10] mid_write_failure) (default_args 1 30 None)
          [''weights/last-vigat-cufed.pt'' \<mapsto> Valid (saved_at 3)]) = Fatal SaveFailed
   \<and> fst (snd (main (scripted [10] mid_write_failure) (default_args 1 30 None)
          [''weights/last-vigat-cufed.pt'' \<mapsto> Valid (saved_at 3)]))
        ''weights/last-vigat-cufed.pt'' = Some Partial
   \<and> snd (snd (main (scripted [10] mid_write_failure) (default_args 1 30 None)
          [''weights/last-vigat-cufed.pt'' \<mapsto> Valid (saved_at 3)]))
      = [TrainPass 0 True, ValidatePass 0, EarlyStopCall 10,
         TorchSaveFailed ''weights/last-vigat-cufed.pt'']"
  by (simp add: eval_defs saved_at_def mid_write_failure_def)

text \<open>
  C7, amended: a save writes straight to its target path, there is no temporary file and
  no rename. After an iteration the files differ from those before it at the paths of the
  last and the best checkpoint only: a save that completes leaves the new checkpoint at its
  target, a save that is refused on opening leaves the target as it was, and a save that is
  interrupted leaves a partial file in place of whatever the target held. Any failed save
  raises, the best checkpoint is not attempted after a failed last checkpoint, and the
  exception ends the run.
\<close>

theorem save_overwrites_in_place:
  "files (snd (loop_body env a ep w)) =
     (case save_result env (last_path a) (ep + 1) of
        Completes \<Rightarrow>
          (if snd (decision env w) then
             (case save_result env (best_path a) (ep + 1) of
                Completes \<Rightarrow> (files w)(last_path a \<mapsto> Valid (config_of env ep w),
                                       best_path a \<mapsto> Valid (config_of env ep w))
              | FailsOnOpen \<Rightarrow> (files w)(last_path a \<mapsto> Valid (config_of env ep w))
              | FailsMidWrite \<Rightarrow> (files w)(last_path a \<mapsto> Valid (config_of env ep w),
                                           best_path a \<mapsto> Partial))
           else (files w)(last_path a \<mapsto> Valid (config_of env ep w)))
      | FailsOnOpen \<Rightarrow> files w
      | FailsMidWrite \<Rightarrow> (files w)(last_path a \<mapsto> Partial))
   \<and> (save_result env (last_path a) (ep + 1) \<noteq> Completes
        \<or> snd (decision env w) \<and> save_result env (best_path a) (ep + 1) \<noteq> Completes
      \<longrightarrow> fst (loop_body env a ep w) = Raise SaveFailed)
   \<and> (ep < num_epochs a \<and> fst (loop_body env a ep w) = Raise SaveFailed
      \<longrightarrow> epoch_loop env a ep w = (Fatal SaveFailed, snd (loop_body env a ep w)))"
proof (intro conjI impI)
  show "files (snd (loop_body env a ep w)) =
     (case save_result env (last_path a) (ep + 1) of
        Completes \<Rightarrow>
          (if snd (decision env w) then
             (case save_result env (best_path a) (ep + 1) of
                Completes \<Rightarrow> (files w)(last_path a \<mapsto> Valid (config_of env ep w),
                                       best_path a \<mapsto> Valid (config_of env ep w))
              | FailsOnOpen \<Rightarrow> (files w)(last_path a \<mapsto> Valid (config_of env ep w))
              | FailsMidWrite \<Rightarrow> (files w)(last_path a \<mapsto> Valid (config_of env ep w),
                                           best_path a \<mapsto> Partial))
           else (files w)(last_path a \<mapsto> Valid (config_of env ep w)))
      | FailsOnOpen \<Rightarrow> files w
      | FailsMidWrite \<Rightarrow> (files w)(last_path a \<mapsto> Partial))"
    by (rule loop_body_files)
next
  assume "save_result env (last_path a) (ep + 1) \<noteq> Completes
        \<or> snd (decision env w) \<and> save_result env (best_path a) (ep + 1) \<noteq> Completes"
  then show "fst (loop_body env a ep w) = Raise SaveFailed"
    by (auto simp: loop_body_flow split: write_result.splits)
next
  assume "ep < num_epochs a \<and> fst (loop_body env a ep w) = Raise SaveFailed"
  then show "epoch_loop env a ep w = (Fatal SaveFailed, snd (loop_body env a ep w))"
    by (simp add: epoch_loop_step)
qed

theorem save_overwrites_in_place_witness:
  "save_result (scripted [10] mid_write_failure) (last_path (default_args 1 30 None)) (0 + 1) \<noteq> Completes
   \<and> 0 < num_epochs (default_args 1 30 None)
   \<and> fst (loop_body (scripted [10] mid_write_failure) (default_args 1 30 None) 0
        (loop_entry (default_args 1 30 None) [''weights/last-vigat-cufed.pt'' \<mapsto> Valid (saved_at 3)] (fresh_data (scripted [10] mid_write_failure)))) = Raise SaveFailed
   \<and> epoch_loop (scripted [10] mid_write_failure) (default_args 1 30 None) 0
        (loop_entry (default_args 1 30 None) [''weights/last-vigat-cufed.pt'' \<mapsto> Valid (saved_at 3)] (fresh_data (scripted [10] mid_write_failure)))
     = (Fatal SaveFailed, snd (loop_body (scripted [10] mid_write_failure) (default_args 1 30 None) 0
        (loop_entry (default_args 1 30 None) [''weights/last-vigat-cufed.pt'' \<mapsto> Valid (saved_at 3)] (fresh_data (scripted [10] mid_write_failure)))))
   \<and> files (snd (loop_body (scripted [10] mid_write_failure) (default_args 1 30 None) 0
        (loop_entry (default_args 1 30 None) [''weights/last-vigat-cufed.pt'' \<mapsto> Valid (saved_at 3)] (fresh_data (scripted [10] mid_write_failure))))) ''weights/last-vigat-cufed.pt'' = Some Partial"
proof -
  let ?E = "scripted [10] mid_write_failure"
  let ?A = "default_args 1 30 None"
  let ?W = "loop_entry ?A [''weights/last-vigat-cufed.pt'' \<mapsto> Valid (saved_at 3)] (fresh_data ?E)"
  note inst = save_overwrites_in_place [of ?E ?A 0 ?W]
  have fails: "save_result ?E (last_path ?A) (0 + 1) \<noteq> Completes"
    by (simp add: scripted_def mid_write_failure_def)
  have budget: "0 < num_epochs ?A" by (simp add: default_args_def)
  from inst fails have raised: "fst (loop_body ?E ?A 0 ?W) = Raise SaveFailed" by blast
  from inst budget raised
  have fatal: "epoch_loop ?E ?A 0 ?W = (Fatal SaveFailed, snd (loop_body ?E ?A 0 ?W))"
    by blast
  have mid: "save_result ?E (last_path ?A) (0 + 1) = FailsMidWrite"
    by (simp add: scripted_def mid_write_failure_def)
  have "files (snd (loop_body ?E ?A 0 ?W)) = (files ?W)(last_path ?A \<mapsto> Partial)"
    using inst [THEN conjunct1] by (simp only: mid write_result.case)
  then have "files (snd (loop_body ?E ?A 0 ?W)) ''weights/last-vigat-cufed.pt'' = Some Partial"
    by (simp add: last_path_def os_path_join_def default_args_def)
  with fails budget raised fatal show ?thesis by blast
qed

subsection \<open>Mode of the module during training\<close>

text \<open>
  C8 says that every epoch after the first starts its training pass in training mode. The
  code calls \<^verbatim>\<open>model.train()\<close> once before the loop, \<^verbatim>\<open>validate\<close> calls \<^verbatim>\<open>model.eval()\<close>, and
  nothing sets the flag again: in a run of two epochs with validation scores 10 and 12 the
  training pass of epoch index 1 starts with the flag cleared.
\<close>

theorem second_epoch_trains_in_eval_mode:
  "snd (snd (main (scripted [10, 12] all_complete) (default_args 2 30 None) Map.empty))
     = [TrainPass 0 True, ValidatePass 0, EarlyStopCall 10,
        TorchSave ''weights/last-vigat-cufed.pt'' (saved_at 1),
        TorchSave ''weights/best-vigat-cufed.pt'' (saved_at 1),
        TrainPass 1 False, ValidatePass 1, EarlyStopCall 12,
        TorchSave ''weights/last-vigat-cufed.pt'' (saved_at 2),
        TorchSave ''weights/best-vigat-cufed.pt'' (saved_at 2)]"
  by (simp add: eval_defs saved_at_def)

text \<open>
  The same holds in general: whatever the iteration before it did, the training pass of a
  later iteration starts with the flag cleared.
\<close>

lemma later_epochs_train_in_eval_mode:
  "\<exists>tr. trace (snd (loop_body env a (ep + 1) (snd (loop_body env a ep w))))
        = trace (snd (loop_body env a ep w)) @ TrainPass (ep + 1) False # tr"
  by (subst loop_body_trace) (simp add: loop_body_training)

subsection \<open>Negative patience\<close>




subsection \<open>Resuming past the epoch budget\<close>

text \<open>
  C10. A run that resumes from a checkpoint whose epoch field is at or above the epoch
  budget, once that checkpoint is loaded (so the save folder exists or could be made and
  the dataset is \<^verbatim>\<open>cufed\<close>), executes no iteration: no training or validation pass, no
  write of a checkpoint and no stop line occur, the files are as before, and the run ends
  normally by the budget. The only event of the run is the creation of the save folder,
  when it did not exist.
\<close>

theorem resume_past_budget:
  assumes "path_exists env (save_folder a) \<or> mkdir_ok env (save_folder a)"
    and "dataset a = ''cufed''" and "resuming a"
    and "fs (the (resume a)) = Some (Valid data)" and "num_epochs a \<le> epoch data"
  shows "main env a fs
           = (StoppedBudget, fs,
              if path_exists env (save_folder a) then [] else [MakeDir (save_folder a)])"
  using assms by (simp add: main_resumed epoch_loop_done startup_trace_def loop_entry_def)

theorem resume_past_budget_witness:
  "main (scripted [10, 11, 12] all_complete)
     (default_args 5 30 (Some ''weights/last-vigat-cufed.pt''))
     [''weights/last-vigat-cufed.pt'' \<mapsto> Valid (saved_at 5)]
   = (StoppedBudget, [''weights/last-vigat-cufed.pt'' \<mapsto> Valid (saved_at 5)], [])"
  using resume_past_budget [of "scripted [10, 11, 12] all_complete"
      "default_args 5 30 (Some ''weights/last-vigat-cufed.pt'')"
      "[''weights/last-vigat-cufed.pt'' \<mapsto> Valid (saved_at 5)]" "saved_at 5"]
  by (simp add: default_args_def resuming_def saved_at_def scripted_def)

text \<open>
  A start-up that fails: with a save folder \<^verbatim>\<open>out/run1\<close> that does not exist and cannot be
  made (its parent is missing), the run ends before anything is loaded or trained.
\<close>

lemma startup_failure_example:
  "main ((scripted [10] all_complete)\<lparr>path_exists := \<lambda>p. False, mkdir_ok := \<lambda>p. False\<rparr>)
     ((default_args 5 30 (Some ''weights/last-vigat-cufed.pt''))\<lparr>save_folder := ''out/run1''\<rparr>)
     [''weights/last-vigat-cufed.pt'' \<mapsto> Valid (saved_at 5)]
   = (Fatal MkdirFailed, [''weights/last-vigat-cufed.pt'' \<mapsto> Valid (saved_at 5)], [])"
  by (rule main_mkdir_fails) simp_all

end
